theory Spec2Isabelle
  imports Main "HOL-Library.Word"
begin

section \<open>The to-do page of \<^verbatim>\<open>src/app/page.tsx\<close>\<close>

text \<open>
  The page is one React component. Its state is seven \<^verbatim>\<open>useState\<close> cells; every handler
  reads the cells and writes some of them. The model passes the cells as one record and
  each handler returns the record after the handler's writes. What \<^verbatim>\<open>Date.now()\<close> returns,
  what \<^verbatim>\<open>confirm(...)\<close> answers and the platform's \<^verbatim>\<open>toLowerCase\<close> come from the environment
  and are arguments of the functions that use them.
\<close>

subsection \<open>Strings\<close>

text \<open>
  A JavaScript string is a sequence of 16-bit code units. \<open>js\<close> writes the string of an
  ASCII literal: each character is the code unit of the same number.
\<close>

type_synonym jsstring = "16 word list"

definition js :: "string \<Rightarrow> jsstring" where
  "js s = map of_char s"

text \<open>
  The code units that \<^verbatim>\<open>String.prototype.trim\<close> strips: the white space of ECMAScript (TAB,
  VT, FF, U+FEFF and the space separators U+0020, U+00A0, U+1680, U+2000 to U+200A,
  U+202F, U+205F, U+3000) and its line terminators (LF, CR, U+2028, U+2029). Each is one
  code unit, and no half of a surrogate pair is among them.
\<close>

definition isWhiteSpace :: "16 word \<Rightarrow> bool" where
  "isWhiteSpace c =
     (c \<in> {0x0009, 0x000A, 0x000B, 0x000C, 0x000D, 0x0020, 0x00A0, 0x1680, 0x2028, 0x2029,
            0x202F, 0x205F, 0x3000, 0xFEFF} \<or>
      (0x2000 \<le> c \<and> c \<le> 0x200A))"

definition trim :: "jsstring \<Rightarrow> jsstring" where
  "trim s = rev (dropWhile isWhiteSpace (rev (dropWhile isWhiteSpace s)))"

text \<open>
  \<^verbatim>\<open>String.prototype.toLowerCase\<close> follows the case tables of Unicode, which are not part of
  the repository: the view-model takes the function as an argument. On a string of ASCII
  code units the platform's function is \<open>toLowerCaseASCII\<close>, which maps \<^verbatim>\<open>A\<close>..\<^verbatim>\<open>Z\<close> to
  \<^verbatim>\<open>a\<close>..\<^verbatim>\<open>z\<close> and leaves the other code units alone; \<open>isASCII\<close> says that a string is of
  that kind.
\<close>

definition isASCII :: "jsstring \<Rightarrow> bool" where
  "isASCII s = list_all (\<lambda>c. c < 0x80) s"

definition toLowerCaseASCII :: "jsstring \<Rightarrow> jsstring" where
  "toLowerCaseASCII s = map (\<lambda>c. if 0x41 \<le> c \<and> c \<le> 0x5A then c + 0x20 else c) s"

fun startsWith :: "jsstring \<Rightarrow> jsstring \<Rightarrow> bool" where
  "startsWith s [] = True"
| "startsWith [] (b # q) = False"
| "startsWith (a # s) (b # q) = (a = b \<and> startsWith s q)"

text \<open>\<^verbatim>\<open>s.includes(q)\<close>: \<^verbatim>\<open>q\<close> occurs in \<^verbatim>\<open>s\<close> as a contiguous run of code units.\<close>

fun includes_str :: "jsstring \<Rightarrow> jsstring \<Rightarrow> bool" where
  "includes_str [] q = (q = [])"
| "includes_str (a # s) q = (startsWith (a # s) q \<or> includes_str s q)"

text \<open>
  \<^verbatim>\<open>String(now)\<close> for an integral number of milliseconds: the decimal digits, most
  significant first, after a minus sign when the number is negative (a time value is below
  \<open>10\<^sup>2\<^sup>1\<close> in magnitude, where the exponent notation starts).
\<close>

definition digitChar :: "nat \<Rightarrow> 16 word" where
  "digitChar d = js ''0123456789'' ! d"

fun digits :: "nat \<Rightarrow> jsstring" where
  "digits n = (if n < 10 then [digitChar n] else digits (n div 10) @ [digitChar (n mod 10)])"

declare digits.simps [simp del]

definition String_num :: "int \<Rightarrow> jsstring" where
  "String_num n = (if n < 0 then js ''-'' @ digits (nat (- n)) else digits (nat n))"

subsection \<open>Data\<close>

text \<open>
  \<^verbatim>\<open>type Todo\<close>. The field \<^verbatim>\<open>id\<close> is \<open>id_t\<close> here (\<open>id\<close> is HOL's identity function);
  \<^verbatim>\<open>description?: string\<close> is optional, \<open>None\<close> when the key is absent. Timestamps are
  milliseconds, integral as \<^verbatim>\<open>Date.now()\<close> returns them.
\<close>

record Todo =
  id_t :: jsstring
  title :: jsstring
  description :: "jsstring option"
  completed :: bool
  createdAt :: int
  updatedAt :: int

text \<open>The status filter \<^verbatim>\<open>'todos' | 'completed'\<close>.\<close>

datatype Filter = Todos | Completed

text \<open>
  The \<^verbatim>\<open>useState\<close> cells of \<^verbatim>\<open>Page\<close>. The cells \<^verbatim>\<open>filter\<close>, \<^verbatim>\<open>title\<close> and \<^verbatim>\<open>description\<close>
  carry the suffix \<open>_s\<close>: the first name is HOL's list filter, the other two are fields of
  \<open>Todo\<close>.
\<close>

record Page =
  todos :: "Todo list"
  search :: jsstring
  filter_s :: Filter
  editing :: "Todo option"
  title_s :: jsstring
  description_s :: jsstring
  modalOpen :: bool

definition initial :: Page where
  "initial =
     \<lparr>todos = [], search = [], filter_s = Todos, editing = None,
      title_s = [], description_s = [], modalOpen = False\<rparr>"

text \<open>\<^verbatim>\<open>t.description || ''\<close>: an absent (or empty) description reads as the empty string.\<close>

definition descriptionOrEmpty :: "Todo \<Rightarrow> jsstring" where
  "descriptionOrEmpty t = (case description t of None \<Rightarrow> [] | Some d \<Rightarrow> d)"

subsection \<open>Handlers\<close>

text \<open>The \<^verbatim>\<open>onChange\<close> and \<^verbatim>\<open>onClick\<close> handlers that write one cell.\<close>

definition setSearch :: "jsstring \<Rightarrow> Page \<Rightarrow> Page" where
  "setSearch v s = s\<lparr>search := v\<rparr>"

definition setFilter :: "Filter \<Rightarrow> Page \<Rightarrow> Page" where
  "setFilter f s = s\<lparr>filter_s := f\<rparr>"

definition setTitle :: "jsstring \<Rightarrow> Page \<Rightarrow> Page" where
  "setTitle v s = s\<lparr>title_s := v\<rparr>"

definition setDescription :: "jsstring \<Rightarrow> Page \<Rightarrow> Page" where
  "setDescription v s = s\<lparr>description_s := v\<rparr>"

definition openAdd :: "Page \<Rightarrow> Page" where
  "openAdd s = s\<lparr>editing := None, title_s := [], description_s := [], modalOpen := True\<rparr>"

definition openEdit :: "Todo \<Rightarrow> Page \<Rightarrow> Page" where
  "openEdit t s =
     s\<lparr>editing := Some t, title_s := title t, description_s := descriptionOrEmpty t,
       modalOpen := True\<rparr>"

text \<open>\<^verbatim>\<open>create\<close>: \<open>now\<close> is the one reading of \<^verbatim>\<open>Date.now()\<close> the handler takes.\<close>

definition create :: "int \<Rightarrow> Page \<Rightarrow> Page" where
  "create now s =
     (let trimmed = trim (title_s s)
      in if trimmed = [] then s
         else
           let todo =
             \<lparr>id_t = String_num now, title = trimmed,
              description = Some (trim (description_s s)), completed = False,
              createdAt = now, updatedAt = now\<rparr>
           in s\<lparr>todos := todo # todos s, modalOpen := False, title_s := [],
                description_s := []\<rparr>)"

text \<open>
  \<^verbatim>\<open>update\<close>: the replacement is built once, from the \<^verbatim>\<open>editing\<close> cell (the task as it was
  when the editor was opened) and one reading \<open>now\<close> of the clock, and it replaces every
  entry of the collection that carries its id.
\<close>

definition update :: "int \<Rightarrow> Page \<Rightarrow> Page" where
  "update now s =
     (case editing s of
        None \<Rightarrow> s
      | Some e \<Rightarrow>
          let trimmed = trim (title_s s)
          in if trimmed = [] then s
             else
               let updated =
                 e\<lparr>title := trimmed, description := Some (trim (description_s s)),
                   updatedAt := now\<rparr>
               in s\<lparr>todos := map (\<lambda>x. if id_t x = id_t updated then updated else x) (todos s),
                    editing := None, modalOpen := False, title_s := [],
                    description_s := []\<rparr>)"

text \<open>\<^verbatim>\<open>remove\<close>: \<open>confirmed\<close> is what \<^verbatim>\<open>confirm('Delete this todo?')\<close> returned.\<close>

definition remove :: "bool \<Rightarrow> jsstring \<Rightarrow> Page \<Rightarrow> Page" where
  "remove confirmed i s =
     (if \<not> confirmed then s else s\<lparr>todos := filter (\<lambda>t. id_t t \<noteq> i) (todos s)\<rparr>)"

text \<open>
  \<^verbatim>\<open>toggle\<close>. The source calls \<^verbatim>\<open>Date.now()\<close> inside the \<^verbatim>\<open>map\<close> callback, so the clock is read
  anew for each matching entry and for no other. \<open>clock k\<close> is what \<^verbatim>\<open>Date.now()\<close> returns
  while the callback is at position \<open>k\<close> of the collection.
\<close>

definition toggle :: "(nat \<Rightarrow> int) \<Rightarrow> jsstring \<Rightarrow> Page \<Rightarrow> Page" where
  "toggle clock i s =
     s\<lparr>todos :=
         map (\<lambda>(k, t). if id_t t = i
                        then t\<lparr>completed := \<not> completed t, updatedAt := clock k\<rparr>
                        else t)
           (enumerate 0 (todos s))\<rparr>"

text \<open>
  The view-model: \<^verbatim>\<open>q\<close> and the \<^verbatim>\<open>useMemo\<close> body of \<^verbatim>\<open>filtered\<close>, with the platform's
  \<^verbatim>\<open>toLowerCase\<close> as the first argument.
\<close>

definition filtered :: "(jsstring \<Rightarrow> jsstring) \<Rightarrow> Page \<Rightarrow> Todo list" where
  "filtered toLowerCase s =
     (let q = toLowerCase (trim (search s))
      in filter
           (\<lambda>t. if filter_s s = Todos \<and> completed t then False
                else if filter_s s = Completed \<and> \<not> completed t then False
                else if q = [] then True
                else includes_str
                       (toLowerCase (title t @ js '' '' @ descriptionOrEmpty t)) q)
           (todos s))"

text \<open>The buttons of the editor: Cancel, the backdrop, and Add/Update.\<close>

definition cancel :: "Page \<Rightarrow> Page" where
  "cancel s = s\<lparr>modalOpen := False, editing := None, title_s := [], description_s := []\<rparr>"

definition backdrop :: "Page \<Rightarrow> Page" where
  "backdrop s = s\<lparr>modalOpen := False, editing := None\<rparr>"

definition submit :: "int \<Rightarrow> Page \<Rightarrow> Page" where
  "submit now s = (if editing s \<noteq> None then update now s else create now s)"

subsection \<open>Persistence\<close>

text \<open>
  The two effects keep the collection in the \<^verbatim>\<open>localStorage\<close> item \<^verbatim>\<open>todos_v1\<close> as JSON text.
  \<^verbatim>\<open>JSON.stringify\<close> and \<^verbatim>\<open>JSON.parse\<close> are the platform's; the model works on the JSON value
  the text denotes. Numbers are the integers, which is what \<^verbatim>\<open>Date.now()\<close> produces.
\<close>

datatype json =
  JNull
| JBool bool
| JNumber int
| JString jsstring
| JArray "json list"
| JObject "(jsstring \<times> json) list"

text \<open>
  What \<^verbatim>\<open>JSON.stringify\<close> writes for one \<^verbatim>\<open>Todo\<close>: its own properties in order, a property
  whose value is \<^verbatim>\<open>undefined\<close> (an absent description) left out.
\<close>

definition json_of_todo :: "Todo \<Rightarrow> json" where
  "json_of_todo t =
     JObject
       ([(js ''id'', JString (id_t t)), (js ''title'', JString (title t))] @
        (case description t of None \<Rightarrow> [] | Some d \<Rightarrow> [(js ''description'', JString d)]) @
        [(js ''completed'', JBool (completed t)), (js ''createdAt'', JNumber (createdAt t)),
         (js ''updatedAt'', JNumber (updatedAt t))])"

definition stringify :: "Todo list \<Rightarrow> json" where
  "stringify ts = JArray (map json_of_todo ts)"

text \<open>
  Property lookup in a parsed object; of a repeated key \<^verbatim>\<open>JSON.parse\<close> keeps the last value.
\<close>

definition property :: "(jsstring \<times> json) list \<Rightarrow> jsstring \<Rightarrow> json option" where
  "property kvs k = map_of (rev kvs) k"

text \<open>
  \<^verbatim>\<open>JSON.parse(raw) as Todo[]\<close>: the cast is unchecked. \<open>todo_of_json\<close> reads a parsed value at
  type \<^verbatim>\<open>Todo\<close>; it is \<open>None\<close> on a value that is not of that type.
\<close>

definition todo_of_json :: "json \<Rightarrow> Todo option" where
  "todo_of_json j =
     (case j of
        JObject kvs \<Rightarrow>
          (case (property kvs (js ''id''), property kvs (js ''title''),
                 property kvs (js ''completed''), property kvs (js ''createdAt''),
                 property kvs (js ''updatedAt'')) of
             (Some (JString i), Some (JString t), Some (JBool c), Some (JNumber ca),
              Some (JNumber ua)) \<Rightarrow>
               (case property kvs (js ''description'') of
                  None \<Rightarrow>
                    Some \<lparr>id_t = i, title = t, description = None, completed = c,
                          createdAt = ca, updatedAt = ua\<rparr>
                | Some (JString d) \<Rightarrow>
                    Some \<lparr>id_t = i, title = t, description = Some d, completed = c,
                          createdAt = ca, updatedAt = ua\<rparr>
                | Some _ \<Rightarrow> None)
           | _ \<Rightarrow> None)
      | _ \<Rightarrow> None)"

definition todos_of_json :: "json \<Rightarrow> Todo list option" where
  "todos_of_json j = (case j of JArray vs \<Rightarrow> those (map todo_of_json vs) | _ \<Rightarrow> None)"

text \<open>
  The item \<^verbatim>\<open>todos_v1\<close>, by what the load effect can make of it: no item (\<^verbatim>\<open>getItem\<close> returns
  \<^verbatim>\<open>null\<close>), a text that \<^verbatim>\<open>JSON.parse\<close> rejects (the empty text, which \<^verbatim>\<open>if (raw)\<close> skips, is
  one), or a text that denotes a JSON value.
\<close>

datatype stored = NoItem | Malformed | JsonText json

text \<open>
  The load effect. The \<^verbatim>\<open>catch\<close> swallows the \<^verbatim>\<open>SyntaxError\<close>, so a malformed text leaves the
  state as it is. The result is \<open>None\<close> when the parsed value is not a \<^verbatim>\<open>Todo[]\<close>: the cast lets it
  through and the state leaves its declared type.
\<close>

definition load :: "stored \<Rightarrow> Page \<Rightarrow> Page option" where
  "load st s =
     (case st of
        NoItem \<Rightarrow> Some s
      | Malformed \<Rightarrow> Some s
      | JsonText j \<Rightarrow>
          (case todos_of_json j of None \<Rightarrow> None | Some ts \<Rightarrow> Some (s\<lparr>todos := ts\<rparr>)))"

text \<open>
  The persist effect; \<open>written\<close> is false when \<^verbatim>\<open>setItem\<close> throws (quota), which the \<^verbatim>\<open>catch\<close>
  swallows, leaving the item as it was.
\<close>

definition save :: "bool \<Rightarrow> Page \<Rightarrow> stored \<Rightarrow> stored" where
  "save written s st = (if written then JsonText (stringify (todos s)) else st)"

section \<open>Properties\<close>

subsection \<open>Strings\<close>

lemma startsWith_iff: "startsWith s q \<longleftrightarrow> (\<exists>r. s = q @ r)"
  by (induction s q rule: startsWith.induct) auto

lemma includes_str_iff: "includes_str s q \<longleftrightarrow> (\<exists>p r. s = p @ q @ r)"
proof (induction s)
  case Nil
  then show ?case by simp
next
  case (Cons a s)
  show ?case
  proof
    assume "includes_str (a # s) q"
    then consider "startsWith (a # s) q" | "includes_str s q" by auto
    then show "\<exists>p r. a # s = p @ q @ r"
    proof cases
      case 1
      then obtain r where "a # s = q @ r" by (auto simp: startsWith_iff)
      then have "a # s = [] @ q @ r" by simp
      then show ?thesis by blast
    next
      case 2
      then obtain p r where "s = p @ q @ r" using Cons.IH by blast
      then have "a # s = (a # p) @ q @ r" by simp
      then show ?thesis by blast
    qed
  next
    assume "\<exists>p r. a # s = p @ q @ r"
    then obtain p r where e: "a # s = p @ q @ r" by blast
    show "includes_str (a # s) q"
    proof (cases p)
      case Nil
      with e have "startsWith (a # s) q" by (simp add: startsWith_iff)
      then show ?thesis by simp
    next
      case (Cons b p')
      with e have "s = p' @ q @ r" by simp
      then have "includes_str s q" using Cons.IH by blast
      then show ?thesis by simp
    qed
  qed
qed

lemma rev_dropWhile_split:
  "y = rev (dropWhile P (rev y)) @ rev (takeWhile P (rev y))"
  by (metis rev_append rev_rev_ident takeWhile_dropWhile_id)

lemma trim_decomposition:
  "\<exists>p r. x = p @ trim x @ r \<and> list_all isWhiteSpace p \<and> list_all isWhiteSpace r"
proof -
  let ?y = "dropWhile isWhiteSpace x"
  let ?p = "takeWhile isWhiteSpace x"
  let ?r = "rev (takeWhile isWhiteSpace (rev ?y))"
  have "?y = trim x @ ?r"
    unfolding trim_def by (rule rev_dropWhile_split)
  then have "?p @ ?y = ?p @ trim x @ ?r" by simp
  then have "x = ?p @ trim x @ ?r" by simp
  moreover have "list_all isWhiteSpace ?p"
    by (simp add: list_all_iff) (meson set_takeWhileD)
  moreover have "list_all isWhiteSpace ?r"
    by (simp add: list_all_iff) (meson set_takeWhileD)
  ultimately show ?thesis by blast
qed

lemma trim_hd: "trim x \<noteq> [] \<Longrightarrow> \<not> isWhiteSpace (hd (trim x))"
proof -
  assume ne: "trim x \<noteq> []"
  let ?y = "dropWhile isWhiteSpace x"
  let ?r = "rev (takeWhile isWhiteSpace (rev ?y))"
  have y: "?y = trim x @ ?r"
    unfolding trim_def by (rule rev_dropWhile_split)
  with ne have "?y \<noteq> []" by (metis append_is_Nil_conv)
  then have "\<not> isWhiteSpace (hd ?y)" by (rule hd_dropWhile)
  moreover from y ne have "hd ?y = hd (trim x)" by (metis hd_append2)
  ultimately show ?thesis by simp
qed

lemma trim_last: "trim x \<noteq> [] \<Longrightarrow> \<not> isWhiteSpace (last (trim x))"
proof -
  assume ne: "trim x \<noteq> []"
  let ?z = "dropWhile isWhiteSpace (rev (dropWhile isWhiteSpace x))"
  have t: "trim x = rev ?z" by (simp add: trim_def)
  with ne have "?z \<noteq> []" by simp
  then have "\<not> isWhiteSpace (hd ?z)" by (rule hd_dropWhile)
  moreover have "last (rev ?z) = hd ?z" using \<open>?z \<noteq> []\<close> by (simp add: last_rev)
  ultimately show ?thesis using t by simp
qed

subsection \<open>The decimal string of a number\<close>

lemma digitChar_inj:
  assumes "d < 10" "d' < 10" "digitChar d = digitChar d'"
  shows "d = d'"
proof -
  have "distinct (js ''0123456789'')" by (simp add: js_def)
  moreover have "d < length (js ''0123456789'')" "d' < length (js ''0123456789'')"
    using assms by (simp_all add: js_def)
  ultimately show ?thesis
    using assms(3) unfolding digitChar_def by (simp only: nth_eq_iff_index_eq)
qed

lemma digitChar_in: "d < 10 \<Longrightarrow> digitChar d \<in> set (js ''0123456789'')"
  unfolding digitChar_def by (rule nth_mem) (simp add: js_def)

lemma digits_nonempty: "digits n \<noteq> []"
  by (subst digits.simps) simp

lemma digits_chars: "set (digits n) \<subseteq> set (js ''0123456789'')"
proof (induction n rule: digits.induct)
  case (1 n)
  show ?case
  proof (cases "n < 10")
    case True
    then have "digits n = [digitChar n]" by (subst digits.simps) simp
    with digitChar_in [OF True] show ?thesis by simp
  next
    case False
    then have e: "digits n = digits (n div 10) @ [digitChar (n mod 10)]"
      by (subst digits.simps) simp
    have "digitChar (n mod 10) \<in> set (js ''0123456789'')" by (rule digitChar_in) simp
    with "1.IH" [OF False] e show ?thesis by simp
  qed
qed

lemma digits_inj: "digits m = digits n \<Longrightarrow> m = n"
proof (induction m arbitrary: n rule: digits.induct)
  case (1 m)
  show ?case
  proof (cases "m < 10")
    case m: True
    then have dm: "digits m = [digitChar m]" by (subst digits.simps) simp
    show ?thesis
    proof (cases "n < 10")
      case True
      then have "digits n = [digitChar n]" by (subst digits.simps) simp
      with dm "1.prems" have "digitChar m = digitChar n" by simp
      with m True show ?thesis by (rule digitChar_inj)
    next
      case False
      then have "digits n = digits (n div 10) @ [digitChar (n mod 10)]"
        by (subst digits.simps) simp
      with dm "1.prems" have "digits (n div 10) = []" by simp
      with digits_nonempty show ?thesis by blast
    qed
  next
    case m: False
    then have dm: "digits m = digits (m div 10) @ [digitChar (m mod 10)]"
      by (subst digits.simps) simp
    show ?thesis
    proof (cases "n < 10")
      case True
      then have "digits n = [digitChar n]" by (subst digits.simps) simp
      with dm "1.prems" have "digits (m div 10) = []" by simp
      with digits_nonempty show ?thesis by blast
    next
      case False
      then have "digits n = digits (n div 10) @ [digitChar (n mod 10)]"
        by (subst digits.simps) simp
      with dm "1.prems" have a: "digits (m div 10) = digits (n div 10)"
        and b: "digitChar (m mod 10) = digitChar (n mod 10)" by simp_all
      from "1.IH" [OF m a] have "m div 10 = n div 10" .
      moreover have "m mod 10 = n mod 10" by (rule digitChar_inj [OF _ _ b]) simp_all
      ultimately show ?thesis by (metis div_mult_mod_eq)
    qed
  qed
qed

lemma String_num_inj: "String_num m = String_num n \<Longrightarrow> m = n"
proof -
  assume e: "String_num m = String_num n"
  have minus: "hd (js ''-'') \<notin> set (js ''0123456789'')" by (simp add: js_def)
  have nd: "\<And>k j. js ''-'' @ digits k \<noteq> digits j"
  proof
    fix k j assume "js ''-'' @ digits k = digits j"
    then have "hd (js ''-'') \<in> set (digits j)"
      by (metis append_Cons hd_append2 js_def list.map(2) list.sel(1) list.set_intros(1)
          list.simps(3))
    with digits_chars [of j] minus show False by blast
  qed
  show ?thesis
  proof (cases "m < 0")
    case m: True
    show ?thesis
    proof (cases "n < 0")
      case True
      with m e have "digits (nat (- m)) = digits (nat (- n))" by (simp add: String_num_def)
      then have "nat (- m) = nat (- n)" by (rule digits_inj)
      with m True show ?thesis by simp
    next
      case False
      with m e have "js ''-'' @ digits (nat (- m)) = digits (nat n)"
        by (simp add: String_num_def)
      with nd show ?thesis by blast
    qed
  next
    case m: False
    show ?thesis
    proof (cases "n < 0")
      case True
      with m e have "js ''-'' @ digits (nat (- n)) = digits (nat m)"
        by (simp add: String_num_def)
      with nd show ?thesis by blast
    next
      case False
      with m e have "digits (nat m) = digits (nat n)" by (simp add: String_num_def)
      then have "nat m = nat n" by (rule digits_inj)
      with m False show ?thesis by simp
    qed
  qed
qed

subsection \<open>Rejected submissions\<close>

text \<open>
  Claim C7. In every state whose title field trims to the empty string (it is empty or
  white space only), submitting, whether it runs \<open>create\<close> or \<open>update\<close>, returns the state as it
  was: the collection is unchanged, the editor stays as open as it was, and the title and
  description fields keep their text.
\<close>

theorem empty_title_rejected:
  assumes "trim (title_s s) = []"
  shows "create now s = s \<and> update now s = s \<and> submit now s = s \<and>
         todos (submit now s) = todos s \<and>
         modalOpen (submit now s) = modalOpen s \<and>
         title_s (submit now s) = title_s s \<and>
         description_s (submit now s) = description_s s"
proof -
  have c: "create now s = s" using assms by (simp add: create_def)
  have u: "update now s = s" using assms by (simp add: update_def split: option.split)
  have "submit now s = s" using c u by (simp add: submit_def)
  with c u show ?thesis by simp
qed

text \<open>An instance: the title is a no-break space, a space and an ideographic space.\<close>

theorem empty_title_rejected_witness:
  "create 1000 (setTitle [0x00A0, 0x0020, 0x3000] (setDescription (js ''milk'') (openAdd initial)))
     = setTitle [0x00A0, 0x0020, 0x3000] (setDescription (js ''milk'') (openAdd initial)) \<and>
   modalOpen (submit 1000
     (setTitle [0x00A0, 0x0020, 0x3000] (setDescription (js ''milk'') (openAdd initial)))) \<and>
   title_s (submit 1000
     (setTitle [0x00A0, 0x0020, 0x3000] (setDescription (js ''milk'') (openAdd initial))))
     = [0x00A0, 0x0020, 0x3000] \<and>
   description_s (submit 1000
     (setTitle [0x00A0, 0x0020, 0x3000] (setDescription (js ''milk'') (openAdd initial))))
     = js ''milk'' \<and>
   todos (submit 1000
     (setTitle [0x00A0, 0x0020, 0x3000] (setDescription (js ''milk'') (openAdd initial)))) = []"
proof -
  let ?s = "setTitle [0x00A0, 0x0020, 0x3000] (setDescription (js ''milk'') (openAdd initial))"
  have h: "trim (title_s ?s) = []"
    by (simp add: setTitle_def trim_def isWhiteSpace_def)
  have v: "modalOpen ?s \<and> title_s ?s = [0x00A0, 0x0020, 0x3000] \<and>
      description_s ?s = js ''milk'' \<and> todos ?s = []"
    by (simp add: setTitle_def setDescription_def openAdd_def initial_def)
  from empty_title_rejected [OF h, of 1000] v show ?thesis by simp
qed

subsection \<open>Ids that match no task\<close>

lemma map_if_absent: "k \<notin> f ` set xs \<Longrightarrow> map (\<lambda>x. if f x = k then g x else x) xs = xs"
  by (induction xs) auto

lemma toggle_length: "length (todos (toggle clock i s)) = length (todos s)"
  by (simp add: toggle_def)

lemma toggle_nth:
  assumes "k < length (todos s)"
  shows "todos (toggle clock i s) ! k =
           (if id_t (todos s ! k) = i
            then (todos s ! k)\<lparr>completed := \<not> completed (todos s ! k), updatedAt := clock k\<rparr>
            else todos s ! k)"
  using assms by (simp add: toggle_def nth_enumerate_eq)

lemma toggle_absent:
  assumes "i \<notin> id_t ` set (todos s)"
  shows "toggle clock i s = s"
proof -
  have "todos (toggle clock i s) = todos s"
  proof (rule nth_equalityI)
    show "length (todos (toggle clock i s)) = length (todos s)" by (rule toggle_length)
  next
    fix k assume "k < length (todos (toggle clock i s))"
    then have k: "k < length (todos s)" by (simp add: toggle_length)
    then have "todos s ! k \<in> set (todos s)" by simp
    with assms have "id_t (todos s ! k) \<noteq> i" by blast
    with toggle_nth [OF k] show "todos (toggle clock i s) ! k = todos s ! k" by simp
  qed
  moreover have "toggle clock i s = s\<lparr>todos := todos (toggle clock i s)\<rparr>"
    by (simp add: toggle_def)
  ultimately show ?thesis by simp
qed

text \<open>
  Claim C9. When the id of the task being edited matches no task of the collection,
  \<open>update\<close> with a title that does not trim to the empty string leaves the collection as it
  was; when the id given to \<open>toggle\<close> matches no task, \<open>toggle\<close> leaves the whole state as it
  was. Neither handler has a failure branch.
\<close>

theorem absent_id_leaves_collection:
  "(editing s = Some e \<and> id_t e \<notin> id_t ` set (todos s) \<and> trim (title_s s) \<noteq> []
      \<longrightarrow> todos (update now s) = todos s) \<and>
   (i \<notin> id_t ` set (todos s) \<longrightarrow> toggle clock i s = s)"
proof (intro conjI impI)
  assume a: "editing s = Some e \<and> id_t e \<notin> id_t ` set (todos s) \<and> trim (title_s s) \<noteq> []"
  then have "id_t e \<notin> id_t ` set (todos s)" by simp
  from map_if_absent [OF this] a show "todos (update now s) = todos s"
    by (simp add: update_def Let_def)
next
  assume "i \<notin> id_t ` set (todos s)"
  then show "toggle clock i s = s" by (rule toggle_absent)
qed

theorem absent_id_leaves_collection_witness:
  "todos (update 2000 (setTitle (js ''b'') (openEdit
      \<lparr>id_t = js ''7'', title = js ''x'', description = None, completed = False, createdAt = 7,
       updatedAt = 7\<rparr> (create 1000 (setTitle (js ''a'') (openAdd initial))))))
     = todos (create 1000 (setTitle (js ''a'') (openAdd initial))) \<and>
   toggle (\<lambda>k. 2000) (js ''7'') (create 1000 (setTitle (js ''a'') (openAdd initial)))
     = create 1000 (setTitle (js ''a'') (openAdd initial)) \<and>
   map id_t (todos (create 1000 (setTitle (js ''a'') (openAdd initial)))) = [js ''1000'']"
proof -
  let ?e = "\<lparr>id_t = js ''7'', title = js ''x'', description = None, completed = False,
             createdAt = 7, updatedAt = 7\<rparr>"
  let ?s1 = "create 1000 (setTitle (js ''a'') (openAdd initial))"
  let ?s = "setTitle (js ''b'') (openEdit ?e ?s1)"
  have ids: "map id_t (todos ?s1) = [js ''1000'']"
    by (simp add: create_def Let_def setTitle_def openAdd_def initial_def trim_def
        isWhiteSpace_def String_num_def digits.simps digitChar_def js_def)
  have t: "todos ?s = todos ?s1" by (simp add: setTitle_def openEdit_def)
  have "id_t ` set (todos ?s1) = set (map id_t (todos ?s1))" by simp
  then have im: "id_t ` set (todos ?s1) = {js ''1000''}" by (simp only: ids) simp
  have h1: "editing ?s = Some ?e \<and> id_t ?e \<notin> id_t ` set (todos ?s) \<and> trim (title_s ?s) \<noteq> []"
    by (simp only: t im) (simp add: setTitle_def openEdit_def trim_def isWhiteSpace_def js_def)
  have h2: "js ''7'' \<notin> id_t ` set (todos ?s1)" by (simp only: im) (simp add: js_def)
  from absent_id_leaves_collection [where s = ?s and e = ?e and now = 2000] h1
  have "todos (update 2000 ?s) = todos ?s" by blast
  moreover from absent_id_leaves_collection [where s = ?s1 and i = "js ''7''" and clock = "\<lambda>k. 2000"] h2
  have "toggle (\<lambda>k. 2000) (js ''7'') ?s1 = ?s1" by blast
  ultimately show ?thesis using t ids by simp
qed

subsection \<open>Creating a task\<close>

text \<open>
  For every state, every clock reading \<open>now\<close> and every title field that does not trim to
  the empty string, \<open>create\<close> makes the collection one longer and puts in front of the old
  collection a task with the trimmed title, \<open>completed\<close> false and \<open>createdAt\<close> and \<open>updatedAt\<close>
  both \<open>now\<close>. Its id is the decimal string of \<open>now\<close>.
\<close>

lemma create_prepends:
  assumes "trim (title_s s) \<noteq> []"
  shows "todos (create now s) =
           \<lparr>id_t = String_num now, title = trim (title_s s),
            description = Some (trim (description_s s)), completed = False,
            createdAt = now, updatedAt = now\<rparr> # todos s"
    and "length (todos (create now s)) = length (todos s) + 1"
    and "completed (hd (todos (create now s))) = False"
    and "createdAt (hd (todos (create now s))) = updatedAt (hd (todos (create now s)))"
  using assms by (simp_all add: create_def Let_def)

lemma create_ids:
  "map id_t (todos (create now s)) =
     (if trim (title_s s) = [] then map id_t (todos s) else String_num now # map id_t (todos s))"
  by (simp add: create_def Let_def)

text \<open>
  Claim C1 says that the task \<open>create\<close> puts in front has a fresh id. The id is the decimal
  string of the clock reading and nothing compares it with the ids of the collection: a
  second task created at the reading of the first (here 1000, titles \<^verbatim>\<open>a\<close> and \<^verbatim>\<open>b\<close>) gets the
  id the first one has.
\<close>

theorem create_id_not_fresh:
  "trim (title_s (setTitle (js ''b'') (openAdd
      (create 1000 (setTitle (js ''a'') (openAdd initial)))))) \<noteq> [] \<and>
   id_t (hd (todos (create 1000 (setTitle (js ''b'') (openAdd
      (create 1000 (setTitle (js ''a'') (openAdd initial)))))))) = js ''1000'' \<and>
   id_t (hd (todos (create 1000 (setTitle (js ''b'') (openAdd
      (create 1000 (setTitle (js ''a'') (openAdd initial))))))))
     \<in> id_t ` set (todos (setTitle (js ''b'') (openAdd
          (create 1000 (setTitle (js ''a'') (openAdd initial))))))"
  by (simp add: create_def Let_def setTitle_def openAdd_def initial_def trim_def
      isWhiteSpace_def String_num_def digits.simps digitChar_def js_def)

subsection \<open>Uniqueness of ids\<close>

text \<open>
  \<open>update\<close>, \<open>toggle\<close> and \<open>remove\<close> never add an id, so they keep the ids pairwise distinct;
  \<open>create\<close> keeps them distinct exactly when the decimal string of its clock reading is not
  an id of the collection yet.
\<close>

lemma update_keeps_ids: "map id_t (todos (update now s)) = map id_t (todos s)"
  by (simp add: update_def Let_def split: option.split)

lemma toggle_keeps_ids: "map id_t (todos (toggle clock i s)) = map id_t (todos s)"
proof (rule nth_equalityI)
  show "length (map id_t (todos (toggle clock i s))) = length (map id_t (todos s))"
    by (simp add: toggle_length)
next
  fix k assume "k < length (map id_t (todos (toggle clock i s)))"
  then have k: "k < length (todos s)" by (simp add: toggle_length)
  then have "id_t (todos (toggle clock i s) ! k) = id_t (todos s ! k)"
    by (simp add: toggle_nth)
  with k show "map id_t (todos (toggle clock i s)) ! k = map id_t (todos s) ! k"
    by (simp add: toggle_length)
qed

lemma remove_ids:
  "map id_t (todos (remove confirmed i s)) =
     (if confirmed then filter (\<lambda>j. j \<noteq> i) (map id_t (todos s)) else map id_t (todos s))"
  by (simp add: remove_def filter_map comp_def)

lemma distinct_ids_preserved:
  assumes "distinct (map id_t (todos s))"
  shows "distinct (map id_t (todos (update now s)))"
    and "distinct (map id_t (todos (toggle clock i s)))"
    and "distinct (map id_t (todos (remove confirmed i s)))"
    and "String_num now \<notin> id_t ` set (todos s) \<Longrightarrow> distinct (map id_t (todos (create now s)))"
  using assms by (simp_all add: create_ids update_keeps_ids toggle_keeps_ids remove_ids)

lemma create_distinct_iff:
  assumes "distinct (map id_t (todos s))" and "trim (title_s s) \<noteq> []"
  shows "distinct (map id_t (todos (create now s))) \<longleftrightarrow> String_num now \<notin> id_t ` set (todos s)"
  using assms by (simp add: create_ids)

text \<open>
  Claim C2 says that the ids of a collection reached from the empty one are pairwise
  distinct, also when two tasks are created within one millisecond. The code gives both
  tasks the id \<^verbatim>\<open>String(now)\<close> of the same reading: after adding \<^verbatim>\<open>a\<close> and then \<^verbatim>\<open>b\<close> at
  reading 1000 the collection holds the id \<^verbatim>\<open>1000\<close> twice.
\<close>

theorem same_millisecond_duplicate_ids:
  "map id_t (todos (create 1000 (setTitle (js ''b'') (openAdd
      (create 1000 (setTitle (js ''a'') (openAdd initial)))))))
     = [js ''1000'', js ''1000''] \<and>
   \<not> distinct (map id_t (todos (create 1000 (setTitle (js ''b'') (openAdd
        (create 1000 (setTitle (js ''a'') (openAdd initial))))))))"
  by (simp add: create_def Let_def setTitle_def openAdd_def initial_def trim_def
      isWhiteSpace_def String_num_def digits.simps digitChar_def js_def)

subsection \<open>The stored description\<close>

text \<open>
  Claim C10. When the title passes the check, \<open>create\<close> stores in the task it adds the
  description field trimmed, and \<open>update\<close> keeps the length of the collection and stores the
  description field trimmed at every position whose task carries the id of the task being
  edited. The trimmed text is the field without a run of white space at its start and one
  at its end, and it neither starts nor ends with white space.
\<close>

theorem description_stored_trimmed:
  "(trim (title_s s) \<noteq> [] \<longrightarrow>
      todos (create now s) \<noteq> [] \<and>
      description (hd (todos (create now s))) = Some (trim (description_s s))) \<and>
   (editing s = Some e \<and> trim (title_s s) \<noteq> [] \<longrightarrow>
      length (todos (update now s)) = length (todos s) \<and>
      (\<forall>k < length (todos s). id_t (todos s ! k) = id_t e \<longrightarrow>
         id_t (todos (update now s) ! k) = id_t e \<and>
         description (todos (update now s) ! k) = Some (trim (description_s s)))) \<and>
   (trim (description_s s) = [] \<or>
      \<not> isWhiteSpace (hd (trim (description_s s))) \<and>
      \<not> isWhiteSpace (last (trim (description_s s)))) \<and>
   (\<exists>p r. description_s s = p @ trim (description_s s) @ r \<and>
      list_all isWhiteSpace p \<and> list_all isWhiteSpace r)"
proof (intro conjI impI)
  assume "trim (title_s s) \<noteq> []"
  then show "description (hd (todos (create now s))) = Some (trim (description_s s))"
    and "todos (create now s) \<noteq> []"
    by (simp_all add: create_def Let_def)
next
  assume a: "editing s = Some e \<and> trim (title_s s) \<noteq> []"
  then show "length (todos (update now s)) = length (todos s)"
    by (simp add: update_def Let_def)
  from a show "\<forall>k < length (todos s). id_t (todos s ! k) = id_t e \<longrightarrow>
         id_t (todos (update now s) ! k) = id_t e \<and>
         description (todos (update now s) ! k) = Some (trim (description_s s))"
    by (simp add: update_def Let_def)
next
  show "trim (description_s s) = [] \<or>
      \<not> isWhiteSpace (hd (trim (description_s s))) \<and>
      \<not> isWhiteSpace (last (trim (description_s s)))"
    using trim_hd trim_last by blast
next
  show "\<exists>p r. description_s s = p @ trim (description_s s) @ r \<and>
      list_all isWhiteSpace p \<and> list_all isWhiteSpace r"
    by (rule trim_decomposition)
qed

text \<open>
  An instance whose descriptions start and end with white space outside ASCII: a no-break
  space on each side of \<^verbatim>\<open>2 l\<close>, an ideographic space and a line separator around \<^verbatim>\<open>3 l\<close>.
\<close>

theorem description_stored_trimmed_witness:
  "map description (todos (create 1000
      (setDescription (0x00A0 # js ''2 l'' @ [0x00A0]) (setTitle (js ''milk'') (openAdd initial)))))
     = [Some (js ''2 l'')] \<and>
   map description (todos (update 2000 (setDescription (0x3000 # js ''3 l'' @ [0x2028]) (openEdit
       \<lparr>id_t = js ''1000'', title = js ''milk'', description = Some (js ''2 l''),
        completed = False, createdAt = 1000, updatedAt = 1000\<rparr>
       (create 1000 (setDescription (0x00A0 # js ''2 l'' @ [0x00A0])
          (setTitle (js ''milk'') (openAdd initial))))))))
     = [Some (js ''3 l'')]"
proof -
  let ?s0 = "setDescription (0x00A0 # js ''2 l'' @ [0x00A0]) (setTitle (js ''milk'') (openAdd initial))"
  let ?s1 = "create 1000 ?s0"
  let ?e = "\<lparr>id_t = js ''1000'', title = js ''milk'', description = Some (js ''2 l''),
       completed = False, createdAt = 1000, updatedAt = 1000\<rparr>"
  let ?s2 = "setDescription (0x3000 # js ''3 l'' @ [0x2028]) (openEdit ?e ?s1)"
  have f0: "title_s ?s0 = js ''milk'' \<and> description_s ?s0 = 0x00A0 # js ''2 l'' @ [0x00A0] \<and>
      todos ?s0 = []"
    by (simp add: setDescription_def setTitle_def openAdd_def initial_def)
  have tr: "trim (js ''milk'') = js ''milk'' \<and> trim (0x00A0 # js ''2 l'' @ [0x00A0]) = js ''2 l'' \<and>
      trim (0x3000 # js ''3 l'' @ [0x2028]) = js ''3 l''"
    by (simp add: trim_def isWhiteSpace_def js_def)
  have ne: "js ''milk'' \<noteq> []" by (simp add: js_def)
  have h0: "trim (title_s ?s0) \<noteq> []" using f0 tr ne by simp
  have n: "String_num 1000 = js ''1000''"
    by (simp add: String_num_def digits.simps digitChar_def js_def)
  have s1: "todos ?s1 = [?e]"
    using f0 tr ne n by (simp add: create_def Let_def)
  have f2: "editing ?s2 = Some ?e \<and> title_s ?s2 = js ''milk'' \<and>
      description_s ?s2 = 0x3000 # js ''3 l'' @ [0x2028] \<and> todos ?s2 = [?e]"
    using s1 by (simp add: setDescription_def openEdit_def)
  have h2: "editing ?s2 = Some ?e \<and> trim (title_s ?s2) \<noteq> []" using f2 tr ne by simp
  from description_stored_trimmed [where s = ?s0 and now = 1000] h0
  have a: "description (hd (todos ?s1)) = Some (trim (description_s ?s0))" by blast
  from description_stored_trimmed [where s = ?s2 and e = ?e and now = 2000] h2
  have len: "length (todos (update 2000 ?s2)) = length (todos ?s2)"
    and b: "\<forall>k < length (todos ?s2). id_t (todos ?s2 ! k) = id_t ?e \<longrightarrow>
         id_t (todos (update 2000 ?s2) ! k) = id_t ?e \<and>
         description (todos (update 2000 ?s2) ! k) = Some (trim (description_s ?s2))"
    by blast+
  have "0 < length (todos ?s2) \<and> id_t (todos ?s2 ! 0) = id_t ?e" using f2 by simp
  with b have b0: "description (todos (update 2000 ?s2) ! 0) = Some (trim (description_s ?s2))"
    by blast
  from len f2 have l1: "length (todos (update 2000 ?s2)) = 1" by simp
  then obtain x where x: "todos (update 2000 ?s2) = [x]"
    by (cases "todos (update 2000 ?s2)") auto
  from a s1 f0 tr have "map description (todos ?s1) = [Some (js ''2 l'')]" by simp
  moreover from b0 x f2 tr have "map description (todos (update 2000 ?s2)) = [Some (js ''3 l'')]"
    by simp
  ultimately show ?thesis by blast
qed

subsection \<open>Editing a task\<close>

lemma map_if_distinct_update:
  assumes "distinct (map f xs)" "k < length xs" "f (xs ! k) = i"
  shows "map (\<lambda>x. if f x = i then u else x) xs = xs[k := u]"
proof (rule nth_equalityI)
  show "length (map (\<lambda>x. if f x = i then u else x) xs) = length (xs[k := u])" by simp
next
  fix j assume "j < length (map (\<lambda>x. if f x = i then u else x) xs)"
  then have j: "j < length xs" by simp
  show "map (\<lambda>x. if f x = i then u else x) xs ! j = xs[k := u] ! j"
  proof (cases "j = k")
    case True
    with assms j show ?thesis by simp
  next
    case False
    have "f (xs ! j) \<noteq> f (xs ! k)"
    proof
      assume "f (xs ! j) = f (xs ! k)"
      with nth_eq_iff_index_eq [OF assms(1), of j k] j assms(2) have "j = k" by simp
      with False show False by simp
    qed
    with assms(3) False j show ?thesis by simp
  qed
qed

text \<open>
  What \<open>update\<close> writes when it passes its two checks: the collection with every task that
  has the id of the task in the \<open>editing\<close> cell replaced.
\<close>

lemma update_todos:
  assumes "editing s = Some e" and "trim (title_s s) \<noteq> []"
  shows "todos (update now s) =
           map (\<lambda>x. if id_t x = id_t e
                    then e\<lparr>title := trim (title_s s),
                           description := Some (trim (description_s s)), updatedAt := now\<rparr>
                    else x)
             (todos s)"
  using assms by (simp add: update_def Let_def)

text \<open>
  Claim C3, as the code has it. Let \<open>e\<close> be the task in the \<open>editing\<close> cell, let the
  collection hold a task with the id of \<open>e\<close>, and let the title field not trim to the empty
  string. Then \<open>update\<close> at clock reading \<open>now\<close> keeps the length and the order of the
  collection and leaves every task with another id as it was. In every task with the id
  of \<open>e\<close> the id stays, the title and the description become the trimmed fields and
  \<open>updatedAt\<close> becomes \<open>now\<close>, which is at least the previous value when \<open>now\<close> is; \<open>createdAt\<close>
  and \<open>completed\<close> stay where the task is still the one the editor was opened on. When the
  ids of the collection are pairwise distinct, all positions but one are left as they were.
\<close>

theorem update_replaces_edited:
  assumes "editing s = Some e" and "id_t e \<in> id_t ` set (todos s)"
    and "trim (title_s s) \<noteq> []"
  shows "length (todos (update now s)) = length (todos s) \<and>
         (\<forall>k < length (todos s). id_t (todos s ! k) \<noteq> id_t e \<longrightarrow>
            todos (update now s) ! k = todos s ! k) \<and>
         (\<forall>k < length (todos s). id_t (todos s ! k) = id_t e \<longrightarrow>
            id_t (todos (update now s) ! k) = id_t (todos s ! k) \<and>
            title (todos (update now s) ! k) = trim (title_s s) \<and>
            description (todos (update now s) ! k) = Some (trim (description_s s)) \<and>
            updatedAt (todos (update now s) ! k) = now \<and>
            (updatedAt (todos s ! k) \<le> now \<longrightarrow>
               updatedAt (todos s ! k) \<le> updatedAt (todos (update now s) ! k)) \<and>
            (todos s ! k = e \<longrightarrow>
               createdAt (todos (update now s) ! k) = createdAt (todos s ! k) \<and>
               completed (todos (update now s) ! k) = completed (todos s ! k))) \<and>
         (\<exists>k < length (todos s). id_t (todos s ! k) = id_t e) \<and>
         (distinct (map id_t (todos s)) \<longrightarrow>
            (\<exists>k < length (todos s). id_t (todos s ! k) = id_t e \<and>
               (\<forall>j < length (todos s). j \<noteq> k \<longrightarrow>
                  todos (update now s) ! j = todos s ! j)))"
proof -
  let ?u = "e\<lparr>title := trim (title_s s), description := Some (trim (description_s s)),
              updatedAt := now\<rparr>"
  note t = update_todos [OF assms(1,3), of now]
  have 1: "length (todos (update now s)) = length (todos s)" by (simp add: t)
  have 2: "\<forall>k < length (todos s). id_t (todos s ! k) \<noteq> id_t e \<longrightarrow>
            todos (update now s) ! k = todos s ! k"
    by (simp add: t)
  have 3: "\<forall>k < length (todos s). id_t (todos s ! k) = id_t e \<longrightarrow>
            id_t (todos (update now s) ! k) = id_t (todos s ! k) \<and>
            title (todos (update now s) ! k) = trim (title_s s) \<and>
            description (todos (update now s) ! k) = Some (trim (description_s s)) \<and>
            updatedAt (todos (update now s) ! k) = now \<and>
            (updatedAt (todos s ! k) \<le> now \<longrightarrow>
               updatedAt (todos s ! k) \<le> updatedAt (todos (update now s) ! k)) \<and>
            (todos s ! k = e \<longrightarrow>
               createdAt (todos (update now s) ! k) = createdAt (todos s ! k) \<and>
               completed (todos (update now s) ! k) = completed (todos s ! k))"
    by (simp add: t)
  from assms(2) obtain k where k: "k < length (todos s)" "id_t (todos s ! k) = id_t e"
    by (auto simp: in_set_conv_nth)
  then have 4: "\<exists>k < length (todos s). id_t (todos s ! k) = id_t e" by blast
  have 5: "\<exists>k < length (todos s). id_t (todos s ! k) = id_t e \<and>
      (\<forall>j < length (todos s). j \<noteq> k \<longrightarrow> todos (update now s) ! j = todos s ! j)"
    if d: "distinct (map id_t (todos s))"
  proof -
    from map_if_distinct_update [OF d k] t have "todos (update now s) = (todos s)[k := ?u]"
      by simp
    then have "\<forall>j < length (todos s). j \<noteq> k \<longrightarrow> todos (update now s) ! j = todos s ! j"
      by simp
    with k show ?thesis by blast
  qed
  from 1 2 3 4 5 show ?thesis by blast
qed

theorem update_replaces_edited_witness:
  "length (todos (update 3000 (setTitle (js ''c'') (openEdit
      \<lparr>id_t = js ''1000'', title = js ''a'', description = Some [], completed = False,
       createdAt = 1000, updatedAt = 1000\<rparr>
      (create 2000 (setTitle (js ''b'') (openAdd
         (create 1000 (setTitle (js ''a'') (openAdd initial))))))))))
     = 2 \<and>
   todos (update 3000 (setTitle (js ''c'') (openEdit
      \<lparr>id_t = js ''1000'', title = js ''a'', description = Some [], completed = False,
       createdAt = 1000, updatedAt = 1000\<rparr>
      (create 2000 (setTitle (js ''b'') (openAdd
         (create 1000 (setTitle (js ''a'') (openAdd initial))))))))) ! 0
     = \<lparr>id_t = js ''2000'', title = js ''b'', description = Some [], completed = False,
        createdAt = 2000, updatedAt = 2000\<rparr> \<and>
   todos (update 3000 (setTitle (js ''c'') (openEdit
      \<lparr>id_t = js ''1000'', title = js ''a'', description = Some [], completed = False,
       createdAt = 1000, updatedAt = 1000\<rparr>
      (create 2000 (setTitle (js ''b'') (openAdd
         (create 1000 (setTitle (js ''a'') (openAdd initial))))))))) ! 1
     = \<lparr>id_t = js ''1000'', title = js ''c'', description = Some [], completed = False,
        createdAt = 1000, updatedAt = 3000\<rparr>"
proof -
  let ?a = "\<lparr>id_t = js ''1000'', title = js ''a'', description = Some [], completed = False,
       createdAt = 1000, updatedAt = 1000\<rparr>"
  let ?b = "\<lparr>id_t = js ''2000'', title = js ''b'', description = Some [], completed = False,
       createdAt = 2000, updatedAt = 2000\<rparr>"
  let ?s2 = "create 2000 (setTitle (js ''b'') (openAdd
      (create 1000 (setTitle (js ''a'') (openAdd initial)))))"
  let ?s = "setTitle (js ''c'') (openEdit ?a ?s2)"
  let ?x = "todos (update 3000 ?s) ! 1"
  have s2: "todos ?s2 = [?b, ?a]"
    by (simp add: create_def Let_def setTitle_def openAdd_def initial_def trim_def
        isWhiteSpace_def String_num_def digits.simps digitChar_def js_def)
  have f: "editing ?s = Some ?a \<and> todos ?s = [?b, ?a] \<and> title_s ?s = js ''c'' \<and>
      description_s ?s = []"
    using s2 by (simp add: setTitle_def openEdit_def descriptionOrEmpty_def)
  have tr: "trim (js ''c'') = js ''c'' \<and> trim [] = [] \<and> js ''c'' \<noteq> []"
    by (simp add: trim_def isWhiteSpace_def js_def)
  have idne: "js ''2000'' \<noteq> js ''1000''" by (simp add: js_def)
  have h1: "editing ?s = Some ?a" using f by simp
  have h2: "id_t ?a \<in> id_t ` set (todos ?s)" using f by simp
  have h3: "trim (title_s ?s) \<noteq> []" using f tr by simp
  note r = update_replaces_edited [OF h1 h2 h3, of 3000]
  from r have len: "length (todos (update 3000 ?s)) = length (todos ?s)" by blast
  from r have other: "\<forall>k < length (todos ?s). id_t (todos ?s ! k) \<noteq> id_t ?a \<longrightarrow>
            todos (update 3000 ?s) ! k = todos ?s ! k" by blast
  from r have same: "\<forall>k < length (todos ?s). id_t (todos ?s ! k) = id_t ?a \<longrightarrow>
            id_t (todos (update 3000 ?s) ! k) = id_t (todos ?s ! k) \<and>
            title (todos (update 3000 ?s) ! k) = trim (title_s ?s) \<and>
            description (todos (update 3000 ?s) ! k) = Some (trim (description_s ?s)) \<and>
            updatedAt (todos (update 3000 ?s) ! k) = 3000 \<and>
            (updatedAt (todos ?s ! k) \<le> 3000 \<longrightarrow>
               updatedAt (todos ?s ! k) \<le> updatedAt (todos (update 3000 ?s) ! k)) \<and>
            (todos ?s ! k = ?a \<longrightarrow>
               createdAt (todos (update 3000 ?s) ! k) = createdAt (todos ?s ! k) \<and>
               completed (todos (update 3000 ?s) ! k) = completed (todos ?s ! k))" by blast
  have p0: "0 < length (todos ?s) \<and> id_t (todos ?s ! 0) \<noteq> id_t ?a" using f idne by simp
  have p1: "1 < length (todos ?s) \<and> id_t (todos ?s ! 1) = id_t ?a \<and> todos ?s ! 1 = ?a"
    using f by simp
  from other p0 have "todos (update 3000 ?s) ! 0 = todos ?s ! 0" by blast
  with f have n0: "todos (update 3000 ?s) ! 0 = ?b" by simp
  from same p1 have "id_t ?x = id_t (todos ?s ! 1) \<and> title ?x = trim (title_s ?s) \<and>
      description ?x = Some (trim (description_s ?s)) \<and> updatedAt ?x = 3000 \<and>
      createdAt ?x = createdAt (todos ?s ! 1) \<and> completed ?x = completed (todos ?s ! 1)"
    by blast
  with f tr have "id_t ?x = js ''1000'' \<and> title ?x = js ''c'' \<and> description ?x = Some [] \<and>
      updatedAt ?x = 3000 \<and> createdAt ?x = 1000 \<and> completed ?x = False" by simp
  then have n1: "?x =
      \<lparr>id_t = js ''1000'', title = js ''c'', description = Some [], completed = False,
        createdAt = 1000, updatedAt = 3000\<rparr>" by (intro Todo.equality) simp_all
  from len f have "length (todos (update 3000 ?s)) = 2" by simp
  with n0 n1 show ?thesis by blast
qed

text \<open>
  The new \<open>updatedAt\<close> is the clock reading, whatever the stored one was: a task created at
  reading 1000 and edited at reading 999 ends with an \<open>updatedAt\<close> below the previous one.
\<close>

theorem update_clock_backwards:
  "editing (openEdit (hd (todos (create 1000 (setTitle (js ''a'') (openAdd initial)))))
      (create 1000 (setTitle (js ''a'') (openAdd initial))))
     = Some (hd (todos (create 1000 (setTitle (js ''a'') (openAdd initial))))) \<and>
   map id_t (todos (openEdit (hd (todos (create 1000 (setTitle (js ''a'') (openAdd initial)))))
      (create 1000 (setTitle (js ''a'') (openAdd initial)))))
     = [id_t (hd (todos (create 1000 (setTitle (js ''a'') (openAdd initial)))))] \<and>
   trim (title_s (openEdit (hd (todos (create 1000 (setTitle (js ''a'') (openAdd initial)))))
      (create 1000 (setTitle (js ''a'') (openAdd initial))))) \<noteq> [] \<and>
   \<not> updatedAt (hd (todos (create 1000 (setTitle (js ''a'') (openAdd initial)))))
      \<le> updatedAt (hd (todos (update 999
          (openEdit (hd (todos (create 1000 (setTitle (js ''a'') (openAdd initial)))))
            (create 1000 (setTitle (js ''a'') (openAdd initial)))))))"
  by (simp add: update_def create_def Let_def setTitle_def openAdd_def openEdit_def initial_def
      trim_def isWhiteSpace_def String_num_def digits.simps digitChar_def descriptionOrEmpty_def
      js_def)

text \<open>
  \<open>update\<close> takes \<open>createdAt\<close> and \<open>completed\<close> from the \<open>editing\<close> cell, not from the
  collection, while \<open>toggle\<close> builds its replacement from the entry in the collection. The
  buttons of the rows stay reachable by keyboard while the editor is open, so a task can be
  toggled between Edit and Update; \<open>update\<close> then writes the \<open>completed\<close> flag of the time the
  editor was opened back over the toggled one.
\<close>

lemma update_stale_snapshot:
  "map completed (todos (toggle (\<lambda>k. 1500) (js ''1000'')
      (openEdit (hd (todos (create 1000 (setTitle (js ''a'') (openAdd initial)))))
        (create 1000 (setTitle (js ''a'') (openAdd initial)))))) = [True] \<and>
   map completed (todos (update 2000 (toggle (\<lambda>k. 1500) (js ''1000'')
      (openEdit (hd (todos (create 1000 (setTitle (js ''a'') (openAdd initial)))))
        (create 1000 (setTitle (js ''a'') (openAdd initial))))))) = [False]"
  by (simp add: update_def toggle_def create_def Let_def setTitle_def openAdd_def openEdit_def
      initial_def trim_def isWhiteSpace_def String_num_def digits.simps digitChar_def
      descriptionOrEmpty_def js_def)

subsection \<open>Toggling a task\<close>

lemma toggle_twice_completed:
  "map completed (todos (toggle c2 i (toggle c1 i s))) = map completed (todos s)"
proof (rule nth_equalityI)
  show "length (map completed (todos (toggle c2 i (toggle c1 i s)))) =
      length (map completed (todos s))"
    by (simp add: toggle_length)
next
  fix k assume "k < length (map completed (todos (toggle c2 i (toggle c1 i s))))"
  then have k: "k < length (todos s)" by (simp add: toggle_length)
  then have k1: "k < length (todos (toggle c1 i s))" by (simp add: toggle_length)
  have "completed (todos (toggle c2 i (toggle c1 i s)) ! k) = completed (todos s ! k)"
    by (simp add: toggle_nth [OF k1] toggle_nth [OF k])
  with k show "map completed (todos (toggle c2 i (toggle c1 i s))) ! k =
      map completed (todos s) ! k"
    by (simp add: toggle_length)
qed

text \<open>
  Claim C4, as the code has it. Toggling the same id twice gives every task the
  \<open>completed\<close> flag it had, and no toggle changes an id or the length of the collection.
  One toggle flips \<open>completed\<close> in every task with the id and sets its \<open>updatedAt\<close> to the clock
  reading taken for that task, and leaves the other tasks as they were; so the \<open>updatedAt\<close>
  of a toggled task changes exactly when that reading differs from the stored value.
\<close>

theorem toggle_twice_restores:
  "map completed (todos (toggle c2 i (toggle c1 i s))) = map completed (todos s) \<and>
   map id_t (todos (toggle c1 i s)) = map id_t (todos s) \<and>
   length (todos (toggle c1 i s)) = length (todos s) \<and>
   (\<forall>k < length (todos s).
      todos (toggle c1 i s) ! k =
        (if id_t (todos s ! k) = i
         then (todos s ! k)\<lparr>completed := \<not> completed (todos s ! k), updatedAt := c1 k\<rparr>
         else todos s ! k)) \<and>
   (\<forall>k < length (todos s). id_t (todos s ! k) = i \<longrightarrow>
      completed (todos (toggle c1 i s) ! k) = (\<not> completed (todos s ! k)) \<and>
      updatedAt (todos (toggle c1 i s) ! k) = c1 k \<and>
      updatedAt (todos (toggle c2 i (toggle c1 i s)) ! k) = c2 k \<and>
      (updatedAt (todos (toggle c1 i s) ! k) \<noteq> updatedAt (todos s ! k)
         \<longleftrightarrow> c1 k \<noteq> updatedAt (todos s ! k)))"
proof -
  have 3: "\<forall>k < length (todos s).
      todos (toggle c1 i s) ! k =
        (if id_t (todos s ! k) = i
         then (todos s ! k)\<lparr>completed := \<not> completed (todos s ! k), updatedAt := c1 k\<rparr>
         else todos s ! k)"
    by (simp add: toggle_nth)
  have 4: "\<forall>k < length (todos s). id_t (todos s ! k) = i \<longrightarrow>
      completed (todos (toggle c1 i s) ! k) = (\<not> completed (todos s ! k)) \<and>
      updatedAt (todos (toggle c1 i s) ! k) = c1 k \<and>
      updatedAt (todos (toggle c2 i (toggle c1 i s)) ! k) = c2 k \<and>
      (updatedAt (todos (toggle c1 i s) ! k) \<noteq> updatedAt (todos s ! k)
         \<longleftrightarrow> c1 k \<noteq> updatedAt (todos s ! k))"
  proof (intro allI impI)
    fix k assume k: "k < length (todos s)" and m: "id_t (todos s ! k) = i"
    then have k1: "k < length (todos (toggle c1 i s))" by (simp add: toggle_length)
    from k m show "completed (todos (toggle c1 i s) ! k) = (\<not> completed (todos s ! k)) \<and>
      updatedAt (todos (toggle c1 i s) ! k) = c1 k \<and>
      updatedAt (todos (toggle c2 i (toggle c1 i s)) ! k) = c2 k \<and>
      (updatedAt (todos (toggle c1 i s) ! k) \<noteq> updatedAt (todos s ! k)
         \<longleftrightarrow> c1 k \<noteq> updatedAt (todos s ! k))"
      by (simp add: toggle_nth [OF k1] toggle_nth [OF k])
  qed
  from toggle_twice_completed [of c2 i c1 s] toggle_keeps_ids [of c1 i s]
    toggle_length [of c1 i s] 3 4
  show ?thesis by blast
qed

text \<open>
  An instance: toggling the two tasks that were created at reading 1000 and share the id
  \<^verbatim>\<open>1000\<close>; the clock reads 2000 at the first and 2001 at the second.
\<close>

theorem toggle_twice_restores_witness:
  "map completed (todos (create 1000 (setTitle (js ''b'') (openAdd
      (create 1000 (setTitle (js ''a'') (openAdd initial))))))) = [False, False] \<and>
   map completed (todos (toggle (\<lambda>k. 3000 + int k) (js ''1000'')
      (toggle (\<lambda>k. 2000 + int k) (js ''1000'')
        (create 1000 (setTitle (js ''b'') (openAdd
          (create 1000 (setTitle (js ''a'') (openAdd initial))))))))) = [False, False] \<and>
   completed (todos (toggle (\<lambda>k. 2000 + int k) (js ''1000'')
      (create 1000 (setTitle (js ''b'') (openAdd
        (create 1000 (setTitle (js ''a'') (openAdd initial))))))) ! 0) \<and>
   completed (todos (toggle (\<lambda>k. 2000 + int k) (js ''1000'')
      (create 1000 (setTitle (js ''b'') (openAdd
        (create 1000 (setTitle (js ''a'') (openAdd initial))))))) ! 1) \<and>
   updatedAt (todos (toggle (\<lambda>k. 2000 + int k) (js ''1000'')
      (create 1000 (setTitle (js ''b'') (openAdd
        (create 1000 (setTitle (js ''a'') (openAdd initial))))))) ! 0) = 2000 \<and>
   updatedAt (todos (toggle (\<lambda>k. 2000 + int k) (js ''1000'')
      (create 1000 (setTitle (js ''b'') (openAdd
        (create 1000 (setTitle (js ''a'') (openAdd initial))))))) ! 1) = 2001"
proof -
  let ?a = "\<lparr>id_t = js ''1000'', title = js ''a'', description = Some [], completed = False,
       createdAt = 1000, updatedAt = 1000\<rparr>"
  let ?b = "\<lparr>id_t = js ''1000'', title = js ''b'', description = Some [], completed = False,
       createdAt = 1000, updatedAt = 1000\<rparr>"
  let ?s2 = "create 1000 (setTitle (js ''b'') (openAdd
      (create 1000 (setTitle (js ''a'') (openAdd initial)))))"
  let ?c1 = "\<lambda>k. 2000 + int k"
  let ?c2 = "\<lambda>k. 3000 + int k"
  have s2: "todos ?s2 = [?b, ?a]"
    by (simp add: create_def Let_def setTitle_def openAdd_def initial_def trim_def
        isWhiteSpace_def String_num_def digits.simps digitChar_def js_def)
  note r = toggle_twice_restores [of ?c2 "js ''1000''" ?c1 ?s2]
  from r have twice: "map completed (todos (toggle ?c2 (js ''1000'') (toggle ?c1 (js ''1000'') ?s2)))
      = map completed (todos ?s2)" by blast
  from r have once: "\<forall>k < length (todos ?s2). id_t (todos ?s2 ! k) = js ''1000'' \<longrightarrow>
      completed (todos (toggle ?c1 (js ''1000'') ?s2) ! k) = (\<not> completed (todos ?s2 ! k)) \<and>
      updatedAt (todos (toggle ?c1 (js ''1000'') ?s2) ! k) = ?c1 k" by blast
  have "0 < length (todos ?s2) \<and> id_t (todos ?s2 ! 0) = js ''1000''" using s2 by simp
  with once have t0: "completed (todos (toggle ?c1 (js ''1000'') ?s2) ! 0)
        = (\<not> completed (todos ?s2 ! 0)) \<and>
      updatedAt (todos (toggle ?c1 (js ''1000'') ?s2) ! 0) = ?c1 0" by blast
  have "1 < length (todos ?s2) \<and> id_t (todos ?s2 ! 1) = js ''1000''" using s2 by simp
  with once have t1: "completed (todos (toggle ?c1 (js ''1000'') ?s2) ! 1)
        = (\<not> completed (todos ?s2 ! 1)) \<and>
      updatedAt (todos (toggle ?c1 (js ''1000'') ?s2) ! 1) = ?c1 1" by blast
  from twice t0 t1 s2 show ?thesis by simp
qed

text \<open>
  A toggle does not always change \<open>updatedAt\<close>: toggling a task while the clock reads what it
  read when the task was created leaves the stored value as it is.
\<close>

theorem toggle_same_reading_keeps_updatedAt:
  "map id_t (todos (create 1000 (setTitle (js ''a'') (openAdd initial)))) = [js ''1000''] \<and>
   completed (hd (todos (toggle (\<lambda>k. 1000) (js ''1000'')
      (create 1000 (setTitle (js ''a'') (openAdd initial)))))) \<and>
   \<not> updatedAt (hd (todos (toggle (\<lambda>k. 1000) (js ''1000'')
        (create 1000 (setTitle (js ''a'') (openAdd initial))))))
       \<noteq> updatedAt (hd (todos (create 1000 (setTitle (js ''a'') (openAdd initial)))))"
  by (simp add: toggle_def create_def Let_def setTitle_def openAdd_def initial_def
      trim_def isWhiteSpace_def String_num_def digits.simps digitChar_def js_def)

subsection \<open>Deleting a task\<close>

lemma filter_absent: "i \<notin> f ` set xs \<Longrightarrow> filter (\<lambda>t. f t \<noteq> i) xs = xs"
  by (induction xs) auto

text \<open>
  Claim C6, as the code has it. When the confirmation is declined, \<open>remove\<close> returns the
  state as it was. When it is granted, \<open>remove\<close> writes the collection only, and the new
  collection is the old one without the entries that carry the id, in the old order: every
  task with another id stays, as many entries go as carry the id, and when exactly one
  entry carries the id, exactly that entry goes.
\<close>

theorem remove_deletes_matching:
  "remove False i s = s \<and>
   todos (remove True i s) = filter (\<lambda>t. id_t t \<noteq> i) (todos s) \<and>
   (remove True i s)\<lparr>todos := todos s\<rparr> = s \<and>
   (\<forall>t \<in> set (todos s). id_t t \<noteq> i \<longrightarrow> t \<in> set (todos (remove True i s))) \<and>
   length (todos (remove True i s)) + length (filter (\<lambda>t. id_t t = i) (todos s))
     = length (todos s) \<and>
   (\<forall>xs t ys. todos s = xs @ t # ys \<and> id_t t = i \<and> i \<notin> id_t ` set xs \<and> i \<notin> id_t ` set ys
      \<longrightarrow> todos (remove True i s) = xs @ ys)"
proof -
  have 1: "remove False i s = s" by (simp add: remove_def)
  have 2: "todos (remove True i s) = filter (\<lambda>t. id_t t \<noteq> i) (todos s)"
    by (simp add: remove_def)
  have 3: "(remove True i s)\<lparr>todos := todos s\<rparr> = s" by (simp add: remove_def)
  have 4: "\<forall>t \<in> set (todos s). id_t t \<noteq> i \<longrightarrow> t \<in> set (todos (remove True i s))"
    by (simp add: 2)
  have 5: "length (todos (remove True i s)) + length (filter (\<lambda>t. id_t t = i) (todos s))
     = length (todos s)"
    using sum_length_filter_compl [of "\<lambda>t. id_t t = i" "todos s"] by (simp add: 2)
  have 6: "\<forall>xs t ys. todos s = xs @ t # ys \<and> id_t t = i \<and> i \<notin> id_t ` set xs \<and>
      i \<notin> id_t ` set ys \<longrightarrow> todos (remove True i s) = xs @ ys"
    by (simp add: 2 filter_absent)
  from 1 2 3 4 5 6 show ?thesis by blast
qed

theorem remove_deletes_matching_witness:
  "remove False (js ''1000'') (create 2000 (setTitle (js ''b'') (openAdd
      (create 1000 (setTitle (js ''a'') (openAdd initial))))))
     = create 2000 (setTitle (js ''b'') (openAdd
         (create 1000 (setTitle (js ''a'') (openAdd initial))))) \<and>
   map id_t (todos (create 2000 (setTitle (js ''b'') (openAdd
      (create 1000 (setTitle (js ''a'') (openAdd initial))))))) = [js ''2000'', js ''1000''] \<and>
   todos (remove True (js ''1000'') (create 2000 (setTitle (js ''b'') (openAdd
      (create 1000 (setTitle (js ''a'') (openAdd initial)))))))
     = [\<lparr>id_t = js ''2000'', title = js ''b'', description = Some [], completed = False,
         createdAt = 2000, updatedAt = 2000\<rparr>]"
proof -
  let ?a = "\<lparr>id_t = js ''1000'', title = js ''a'', description = Some [], completed = False,
       createdAt = 1000, updatedAt = 1000\<rparr>"
  let ?b = "\<lparr>id_t = js ''2000'', title = js ''b'', description = Some [], completed = False,
       createdAt = 2000, updatedAt = 2000\<rparr>"
  let ?s2 = "create 2000 (setTitle (js ''b'') (openAdd
      (create 1000 (setTitle (js ''a'') (openAdd initial)))))"
  have s2: "todos ?s2 = [?b, ?a]"
    by (simp add: create_def Let_def setTitle_def openAdd_def initial_def trim_def
        isWhiteSpace_def String_num_def digits.simps digitChar_def js_def)
  have idne: "js ''1000'' \<noteq> js ''2000''" by (simp add: js_def)
  note r = remove_deletes_matching [of "js ''1000''" ?s2]
  from r have no: "remove False (js ''1000'') ?s2 = ?s2" by blast
  from r have one: "\<forall>xs t ys. todos ?s2 = xs @ t # ys \<and> id_t t = js ''1000'' \<and>
      js ''1000'' \<notin> id_t ` set xs \<and> js ''1000'' \<notin> id_t ` set ys
      \<longrightarrow> todos (remove True (js ''1000'') ?s2) = xs @ ys" by blast
  have "todos ?s2 = [?b] @ ?a # [] \<and> id_t ?a = js ''1000'' \<and>
      js ''1000'' \<notin> id_t ` set [?b] \<and> js ''1000'' \<notin> id_t ` set []" using s2 idne by simp
  with one have "todos (remove True (js ''1000'') ?s2) = [?b] @ []" by blast
  with no s2 show ?thesis by simp
qed

text \<open>
  The number of deleted entries is not always one: of two tasks created at the same clock
  reading, which share their id, one confirmed \<open>remove\<close> deletes both.
\<close>

theorem remove_deletes_both_duplicates:
  "map id_t (todos (create 1000 (setTitle (js ''b'') (openAdd
      (create 1000 (setTitle (js ''a'') (openAdd initial)))))))
     = [js ''1000'', js ''1000''] \<and>
   todos (remove True (js ''1000'') (create 1000 (setTitle (js ''b'') (openAdd
      (create 1000 (setTitle (js ''a'') (openAdd initial))))))) = [] \<and>
   \<not> length (todos (remove True (js ''1000'') (create 1000 (setTitle (js ''b'') (openAdd
        (create 1000 (setTitle (js ''a'') (openAdd initial)))))))) + 1
     = length (todos (create 1000 (setTitle (js ''b'') (openAdd
        (create 1000 (setTitle (js ''a'') (openAdd initial)))))))"
  by (simp add: remove_def create_def Let_def setTitle_def openAdd_def initial_def
      trim_def isWhiteSpace_def String_num_def digits.simps digitChar_def js_def)

subsection \<open>Persisting and reloading\<close>

lemma todo_of_json_of_todo: "todo_of_json (json_of_todo t) = Some t"
  by (cases "description t")
    (simp_all add: todo_of_json_def json_of_todo_def property_def js_def)

lemma those_map_Some: "(\<And>x. f (g x) = Some x) \<Longrightarrow> those (map (\<lambda>x. f (g x)) xs) = Some xs"
  by (induction xs) simp_all

lemma todos_of_json_stringify: "todos_of_json (stringify ts) = Some ts"
  using those_map_Some [of todo_of_json json_of_todo ts, OF todo_of_json_of_todo]
  by (simp add: todos_of_json_def stringify_def comp_def)

text \<open>
  Claim C8. The JSON value that a successful \<open>save\<close> of a collection leaves in the item is read
  back by \<open>load\<close>, into any state and so into the initial state of a restarted page, as that
  same collection: each record is read back as the record that was written.
\<close>

theorem load_save_roundtrip:
  "load (save True s st) s0 = Some (s0\<lparr>todos := todos s\<rparr>) \<and>
   load (save True s st) initial = Some (initial\<lparr>todos := todos s\<rparr>) \<and>
   todos_of_json (stringify (todos s)) = Some (todos s) \<and>
   map todo_of_json (map json_of_todo (todos s)) = map Some (todos s)"
  by (simp add: load_def save_def todos_of_json_stringify todo_of_json_of_todo comp_def)

subsection \<open>The view-model\<close>

lemma ex_append_split: "\<exists>p r. x = p @ r"
  by (rule exI [of _ "[]"]) simp

lemma filtered_eq:
  "filtered toLowerCase s =
     filter (\<lambda>t. (completed t \<longleftrightarrow> filter_s s = Completed) \<and>
                (\<exists>p r. toLowerCase (title t @ js '' '' @ descriptionOrEmpty t)
                         = p @ toLowerCase (trim (search s)) @ r))
       (todos s)"
  unfolding filtered_def Let_def
  by (rule filter_cong [OF refl])
    (cases "filter_s s"; simp add: includes_str_iff ex_append_split)

lemma filtered_frame:
  "filtered toLowerCase (s\<lparr>editing := e, title_s := a, description_s := b, modalOpen := m\<rparr>)
     = filtered toLowerCase s"
  by (simp add: filtered_def)

text \<open>
  Claim C5, as the code has it. Whatever function \<open>toLowerCase\<close> is, the view-model is the
  collection, in its order, restricted to the tasks whose \<open>completed\<close> flag is the one the
  status filter asks for and whose title, a space and the description, in lower case,
  contain the lower-cased trimmed search text. The view-model reads no other cell of the
  state. With a \<open>toLowerCase\<close> that is \<open>toLowerCaseASCII\<close> on ASCII strings, as the platform's is,
  a search text that trims to the empty string lets every task of the asked status
  through, and for \<^verbatim>\<open>Buy milk\<close> (pending) and \<^verbatim>\<open>Pay rent\<close> (completed), without descriptions, it gives
  the first for the pending filter with the empty search, the second for the completed
  filter with the empty search, the first for the pending filter with the search
  \<^verbatim>\<open>milk\<close>, and no task for the pending filter with the search \<^verbatim>\<open>rent\<close>.
\<close>

theorem filtered_status_and_trimmed_search:
  "filtered toLowerCase s =
     filter (\<lambda>t. (completed t \<longleftrightarrow> filter_s s = Completed) \<and>
                (\<exists>p r. toLowerCase (title t @ js '' '' @ descriptionOrEmpty t)
                         = p @ toLowerCase (trim (search s)) @ r))
       (todos s) \<and>
   filtered toLowerCase (s\<lparr>editing := e, title_s := a, description_s := b, modalOpen := m\<rparr>)
     = filtered toLowerCase s \<and>
   ((\<forall>x. isASCII x \<longrightarrow> toLowerCase x = toLowerCaseASCII x) \<longrightarrow>
    (trim (search s) = [] \<longrightarrow>
       filtered toLowerCase s =
         filter (\<lambda>t. completed t \<longleftrightarrow> filter_s s = Completed) (todos s)) \<and>
    filtered toLowerCase (s\<lparr>todos :=
        [\<lparr>id_t = ia, title = js ''Buy milk'', description = None, completed = False,
          createdAt = ca, updatedAt = ua\<rparr>,
         \<lparr>id_t = ib, title = js ''Pay rent'', description = None, completed = True,
          createdAt = cb, updatedAt = ub\<rparr>],
       filter_s := Todos, search := []\<rparr>)
     = [\<lparr>id_t = ia, title = js ''Buy milk'', description = None, completed = False,
         createdAt = ca, updatedAt = ua\<rparr>] \<and>
    filtered toLowerCase (s\<lparr>todos :=
        [\<lparr>id_t = ia, title = js ''Buy milk'', description = None, completed = False,
          createdAt = ca, updatedAt = ua\<rparr>,
         \<lparr>id_t = ib, title = js ''Pay rent'', description = None, completed = True,
          createdAt = cb, updatedAt = ub\<rparr>],
       filter_s := Completed, search := []\<rparr>)
     = [\<lparr>id_t = ib, title = js ''Pay rent'', description = None, completed = True,
         createdAt = cb, updatedAt = ub\<rparr>] \<and>
    filtered toLowerCase (s\<lparr>todos :=
        [\<lparr>id_t = ia, title = js ''Buy milk'', description = None, completed = False,
          createdAt = ca, updatedAt = ua\<rparr>,
         \<lparr>id_t = ib, title = js ''Pay rent'', description = None, completed = True,
          createdAt = cb, updatedAt = ub\<rparr>],
       filter_s := Todos, search := js ''milk''\<rparr>)
     = [\<lparr>id_t = ia, title = js ''Buy milk'', description = None, completed = False,
         createdAt = ca, updatedAt = ua\<rparr>] \<and>
    filtered toLowerCase (s\<lparr>todos :=
        [\<lparr>id_t = ia, title = js ''Buy milk'', description = None, completed = False,
          createdAt = ca, updatedAt = ua\<rparr>,
         \<lparr>id_t = ib, title = js ''Pay rent'', description = None, completed = True,
          createdAt = cb, updatedAt = ub\<rparr>],
       filter_s := Todos, search := js ''rent''\<rparr>)
     = [])"
proof (intro conjI impI)
  show "filtered toLowerCase s =
     filter (\<lambda>t. (completed t \<longleftrightarrow> filter_s s = Completed) \<and>
                (\<exists>p r. toLowerCase (title t @ js '' '' @ descriptionOrEmpty t)
                         = p @ toLowerCase (trim (search s)) @ r))
       (todos s)"
    by (rule filtered_eq)
next
  show "filtered toLowerCase (s\<lparr>editing := e, title_s := a, description_s := b, modalOpen := m\<rparr>)
     = filtered toLowerCase s"
    by (rule filtered_frame)
next
  assume lc: "\<forall>x. isASCII x \<longrightarrow> toLowerCase x = toLowerCaseASCII x"
  have "isASCII (js ''Buy milk '') \<and> isASCII (js ''milk'') \<and> isASCII (js ''rent'') \<and> isASCII []"
    by (simp add: isASCII_def js_def)
  with lc have "toLowerCase (js ''Buy milk '') = toLowerCaseASCII (js ''Buy milk '') \<and>
      toLowerCase (js ''milk'') = toLowerCaseASCII (js ''milk'') \<and>
      toLowerCase (js ''rent'') = toLowerCaseASCII (js ''rent'') \<and>
      toLowerCase [] = toLowerCaseASCII []"
    by blast
  then have low: "toLowerCase (js ''Buy milk '') = js ''buy milk '' \<and>
      toLowerCase (js ''milk'') = js ''milk'' \<and> toLowerCase (js ''rent'') = js ''rent'' \<and>
      toLowerCase [] = []"
    by (simp add: toLowerCaseASCII_def js_def)
  have cat: "js ''Buy milk'' @ js '' '' = js ''Buy milk ''" by (simp add: js_def)
  have tr: "trim [] = [] \<and> trim (js ''milk'') = js ''milk'' \<and> trim (js ''rent'') = js ''rent''"
    by (simp add: trim_def isWhiteSpace_def js_def)
  have ne: "js ''milk'' \<noteq> [] \<and> js ''rent'' \<noteq> []" by (simp add: js_def)
  have inc: "includes_str (js ''buy milk '') (js ''milk'') \<and>
      \<not> includes_str (js ''buy milk '') (js ''rent'')"
    by (simp add: js_def)
  show "filtered toLowerCase s =
      filter (\<lambda>t. completed t \<longleftrightarrow> filter_s s = Completed) (todos s)"
    if "trim (search s) = []"
    using that low unfolding filtered_def Let_def
    by (intro filter_cong [OF refl]) (cases "filter_s s"; simp)
  show "filtered toLowerCase (s\<lparr>todos :=
        [\<lparr>id_t = ia, title = js ''Buy milk'', description = None, completed = False,
          createdAt = ca, updatedAt = ua\<rparr>,
         \<lparr>id_t = ib, title = js ''Pay rent'', description = None, completed = True,
          createdAt = cb, updatedAt = ub\<rparr>],
       filter_s := Todos, search := []\<rparr>)
     = [\<lparr>id_t = ia, title = js ''Buy milk'', description = None, completed = False,
         createdAt = ca, updatedAt = ua\<rparr>]"
    by (simp add: filtered_def Let_def tr low)
  show "filtered toLowerCase (s\<lparr>todos :=
        [\<lparr>id_t = ia, title = js ''Buy milk'', description = None, completed = False,
          createdAt = ca, updatedAt = ua\<rparr>,
         \<lparr>id_t = ib, title = js ''Pay rent'', description = None, completed = True,
          createdAt = cb, updatedAt = ub\<rparr>],
       filter_s := Completed, search := []\<rparr>)
     = [\<lparr>id_t = ib, title = js ''Pay rent'', description = None, completed = True,
         createdAt = cb, updatedAt = ub\<rparr>]"
    by (simp add: filtered_def Let_def tr low)
  show "filtered toLowerCase (s\<lparr>todos :=
        [\<lparr>id_t = ia, title = js ''Buy milk'', description = None, completed = False,
          createdAt = ca, updatedAt = ua\<rparr>,
         \<lparr>id_t = ib, title = js ''Pay rent'', description = None, completed = True,
          createdAt = cb, updatedAt = ub\<rparr>],
       filter_s := Todos, search := js ''milk''\<rparr>)
     = [\<lparr>id_t = ia, title = js ''Buy milk'', description = None, completed = False,
         createdAt = ca, updatedAt = ua\<rparr>]"
    by (simp add: filtered_def Let_def tr low ne inc descriptionOrEmpty_def cat)
  show "filtered toLowerCase (s\<lparr>todos :=
        [\<lparr>id_t = ia, title = js ''Buy milk'', description = None, completed = False,
          createdAt = ca, updatedAt = ua\<rparr>,
         \<lparr>id_t = ib, title = js ''Pay rent'', description = None, completed = True,
          createdAt = cb, updatedAt = ub\<rparr>],
       filter_s := Todos, search := js ''rent''\<rparr>)
     = []"
    by (simp add: filtered_def Let_def tr low ne inc descriptionOrEmpty_def cat)
qed

text \<open>
  An instance, with \<open>toLowerCaseASCII\<close> itself for \<open>toLowerCase\<close> and a search of three spaces,
  which trims to the empty string.
\<close>

theorem filtered_status_and_trimmed_search_witness:
  "filtered toLowerCaseASCII
     \<lparr>todos =
        [\<lparr>id_t = js ''1'', title = js ''Buy milk'', description = None, completed = False,
          createdAt = 1, updatedAt = 1\<rparr>,
         \<lparr>id_t = js ''2'', title = js ''Pay rent'', description = None, completed = True,
          createdAt = 2, updatedAt = 2\<rparr>],
      search = js ''   '', filter_s = Completed, editing = None, title_s = [],
      description_s = [], modalOpen = False\<rparr>
     = [\<lparr>id_t = js ''2'', title = js ''Pay rent'', description = None, completed = True,
         createdAt = 2, updatedAt = 2\<rparr>] \<and>
   filtered toLowerCaseASCII
     (initial\<lparr>todos :=
        [\<lparr>id_t = js ''1'', title = js ''Buy milk'', description = None, completed = False,
          createdAt = 1, updatedAt = 1\<rparr>,
         \<lparr>id_t = js ''2'', title = js ''Pay rent'', description = None, completed = True,
          createdAt = 2, updatedAt = 2\<rparr>],
       filter_s := Todos, search := js ''milk''\<rparr>)
     = [\<lparr>id_t = js ''1'', title = js ''Buy milk'', description = None, completed = False,
         createdAt = 1, updatedAt = 1\<rparr>] \<and>
   filtered toLowerCaseASCII
     (initial\<lparr>todos :=
        [\<lparr>id_t = js ''1'', title = js ''Buy milk'', description = None, completed = False,
          createdAt = 1, updatedAt = 1\<rparr>,
         \<lparr>id_t = js ''2'', title = js ''Pay rent'', description = None, completed = True,
          createdAt = 2, updatedAt = 2\<rparr>],
       filter_s := Todos, search := js ''rent''\<rparr>)
     = []"
proof -
  let ?A = "\<lparr>id_t = js ''1'', title = js ''Buy milk'', description = None, completed = False,
          createdAt = 1, updatedAt = 1\<rparr>"
  let ?B = "\<lparr>id_t = js ''2'', title = js ''Pay rent'', description = None, completed = True,
          createdAt = 2, updatedAt = 2\<rparr>"
  let ?s = "\<lparr>todos = [?A, ?B], search = js ''   '', filter_s = Completed, editing = None,
      title_s = [], description_s = [], modalOpen = False\<rparr>"
  have h1: "trim (search ?s) = []" by (simp add: trim_def isWhiteSpace_def js_def)
  have h2: "\<forall>x. isASCII x \<longrightarrow> toLowerCaseASCII x = toLowerCaseASCII x" by simp
  from filtered_status_and_trimmed_search [where toLowerCase = toLowerCaseASCII and s = ?s] h1 h2
  have "filtered toLowerCaseASCII ?s =
      filter (\<lambda>t. completed t \<longleftrightarrow> filter_s ?s = Completed) (todos ?s)" by blast
  then have a: "filtered toLowerCaseASCII ?s = [?B]" by simp
  from filtered_status_and_trimmed_search [where toLowerCase = toLowerCaseASCII and s = initial
      and ia = "js ''1''" and ib = "js ''2''" and ca = 1 and ua = 1 and cb = 2 and ub = 2] h2
  have b: "filtered toLowerCaseASCII (initial\<lparr>todos := [?A, ?B], filter_s := Todos,
        search := js ''milk''\<rparr>) = [?A]"
    and c: "filtered toLowerCaseASCII (initial\<lparr>todos := [?A, ?B], filter_s := Todos,
        search := js ''rent''\<rparr>) = []"
    by blast+
  from a b c show ?thesis by blast
qed

text \<open>
  The search text is trimmed before it is looked for: the search \<^verbatim>\<open> milk\<close>, with a space in
  front, finds the task \<^verbatim>\<open>milk\<close>, whose text \<^verbatim>\<open>milk \<close> does not contain the search text. On
  these ASCII strings the platform's \<^verbatim>\<open>toLowerCase\<close> is \<open>toLowerCaseASCII\<close>.
\<close>

theorem filtered_trims_search:
  "filtered toLowerCaseASCII
     \<lparr>todos = [\<lparr>id_t = js ''1'', title = js ''milk'', description = None, completed = False,
                createdAt = 1, updatedAt = 1\<rparr>],
      search = js '' milk'', filter_s = Todos, editing = None, title_s = [],
      description_s = [], modalOpen = False\<rparr>
     = [\<lparr>id_t = js ''1'', title = js ''milk'', description = None, completed = False,
         createdAt = 1, updatedAt = 1\<rparr>] \<and>
   \<not> includes_str
       (toLowerCaseASCII
          (title \<lparr>id_t = js ''1'', title = js ''milk'', description = None, completed = False,
                   createdAt = 1, updatedAt = 1\<rparr> @ js '' '' @
           descriptionOrEmpty \<lparr>id_t = js ''1'', title = js ''milk'', description = None,
                   completed = False, createdAt = 1, updatedAt = 1\<rparr>))
       (toLowerCaseASCII (js '' milk''))"
  by (simp add: filtered_def Let_def trim_def isWhiteSpace_def toLowerCaseASCII_def
      descriptionOrEmpty_def js_def)

end
